theory Spec2Isabelle
  imports Complex_Main "HOL-Library.AList" "HOL-Library.Multiset"
begin

section \<open>JavaScript values and objects\<close>

text \<open>
  The values a field of a parsed receipt can hold: \<open>string | number | boolean | null\<close>
  (the \<open>value\<close> type of the \<open>Field\<close> component). An object literal is an association
  list in property order; the spread \<open>{...o, [k]: v}\<close> is \<open>AList.update k v o\<close>
  (an existing key keeps its place, a new key is appended) and \<open>o[k]\<close> is
  \<open>map_of o k\<close>, with \<open>None\<close> for \<open>undefined\<close>.
\<close>

datatype jsval = JNull | JBool bool | JNum real | JStr string

type_synonym jsobj = "(string \<times> jsval) list"

section \<open>lib/types: the sectioned record\<close>

datatype ActiveSection = TravelGeneral | TravelMileage | Hospitality | Other

record TypeSpecificFields =
  travel_general :: jsobj
  travel_mileage :: jsobj
  hospitality :: jsobj
  other :: jsobj

record ParsedReceipt =
  active_section :: ActiveSection
  confidence :: string
  raw_description :: string
  fields_rec :: TypeSpecificFields

text \<open>\<open>fs[section]\<close> and \<open>{...fs, [section]: o}\<close> on the four-key object.\<close>

fun get_section :: "TypeSpecificFields \<Rightarrow> ActiveSection \<Rightarrow> jsobj" where
  "get_section fs TravelGeneral = travel_general fs"
| "get_section fs TravelMileage = travel_mileage fs"
| "get_section fs Hospitality = hospitality fs"
| "get_section fs Other = other fs"

fun set_section :: "TypeSpecificFields \<Rightarrow> ActiveSection \<Rightarrow> jsobj \<Rightarrow> TypeSpecificFields" where
  "set_section fs TravelGeneral ob = fs\<lparr>travel_general := ob\<rparr>"
| "set_section fs TravelMileage ob = fs\<lparr>travel_mileage := ob\<rparr>"
| "set_section fs Hospitality ob = fs\<lparr>hospitality := ob\<rparr>"
| "set_section fs Other ob = fs\<lparr>other := ob\<rparr>"

section \<open>ReceiptReview (sectioned variant): updateField\<close>

text \<open>
  \<open>updateField(section, field, value)\<close> of the review component. \<open>parsed\<close> is
  \<open>receipt?.parsed\<close>; when it is null the function returns without calling
  \<open>onUpdateParsed\<close> (\<open>None\<close>), otherwise the result is the record handed to
  \<open>onUpdateParsed(currentIndex, newParsed)\<close>.
\<close>

definition updateField ::
  "ParsedReceipt option \<Rightarrow> ActiveSection \<Rightarrow> string \<Rightarrow> jsval \<Rightarrow> ParsedReceipt option" where
  "updateField parsed section field val =
     (case parsed of
        None \<Rightarrow> None
      | Some p \<Rightarrow>
          (let newParsed =
                 p\<lparr>fields_rec := set_section (fields_rec p) section
                                (AList.update field val (get_section (fields_rec p) section))\<rparr>
           in if section \<noteq> active_section p \<and> val \<noteq> JNull \<and> val \<noteq> JStr [] \<and> val \<noteq> JBool False
              then Some (newParsed\<lparr>active_section := section\<rparr>)
              else Some newParsed))"

section \<open>app/page.tsx: receipts and the session state\<close>

type_synonym File = string

text \<open>
  \<open>Receipt\<close>, with the \<open>file\<close> that \<open>handleFilesAdded\<close> attaches
  (\<open>Receipt & { file?: File }\<close>). The record is polymorphic in the parsed record, so the
  handlers of \<open>page.tsx\<close> apply to the flat and to the sectioned \<open>ParsedReceipt\<close>.
\<close>

record 'p Receipt =
  receipt_id :: string
  filename :: string
  image_base64 :: string
  thumbnail_base64 :: string
  parsed :: "'p option"
  approved :: bool
  processing :: bool
  error :: "string option"
  file_obj :: "File option"

text \<open>\<open>xs.map((r, idx) => f(r, idx))\<close>.\<close>

definition map_idx :: "('a \<Rightarrow> nat \<Rightarrow> 'b) \<Rightarrow> 'a list \<Rightarrow> 'b list" where
  "map_idx f xs = map (\<lambda>idx. f (xs ! idx) idx) [0..<length xs]"

text \<open>
  One HTTP exchange as the handlers see it: \<open>fetch\<close> rejects with a message, or resolves
  to a response with \<open>ok\<close>, \<open>status\<close> and a body on which \<open>res.json()\<close> rejects
  (\<open>Inl\<close>) or yields the data (\<open>Inr\<close>).
\<close>

datatype 'd http_reply = Rejected string | Reply bool nat "string + 'd"

definition digit_char :: "nat \<Rightarrow> char" where
  "digit_char n = ''0123456789'' ! n"

fun string_of_nat :: "nat \<Rightarrow> string" where
  "string_of_nat n =
     (if n < 10 then [digit_char n] else string_of_nat (n div 10) @ [digit_char (n mod 10)])"

declare string_of_nat.simps [simp del]

record 'p parse_data =
  d_image_base64 :: string
  d_thumbnail_base64 :: string
  d_parsed :: "'p option"

text \<open>
  The body of the \<open>try\<close> block of \<open>processOne\<close>: \<open>Inl\<close> is the message of the error
  it throws, \<open>Inr\<close> the parsed JSON.
\<close>

fun parse_attempt :: "'d http_reply \<Rightarrow> string + 'd" where
  "parse_attempt (Rejected m) = Inl m"
| "parse_attempt (Reply ok status body) =
     (if \<not> ok then Inl (''HTTP '' @ string_of_nat status) else body)"

definition MAX_RETRIES :: nat where
  "MAX_RETRIES = 3"

text \<open>
  The placeholder of \<open>processOne\<close>. \<open>now\<close> is \<open>new Date().toISOString()\<close>;
  \<open>.split('T')[0]\<close> keeps what precedes the first \<open>T\<close>.
\<close>

definition emptyParsed :: "string \<Rightarrow> jsobj" where
  "emptyParsed now =
     [(''expense_type'', JStr ''OTHER''),
      (''amount'', JNum 0),
      (''currency'', JStr ''USD''),
      (''date'', JStr (takeWhile (\<lambda>c. c \<noteq> CHR ''T'') now)),
      (''vendor'', JStr ''Unknown''),
      (''description'', JStr ''Failed to parse after 3 attempts - please fill manually''),
      (''guest_count'', JNull),
      (''is_group_expense'', JBool False),
      (''confidence'', JStr ''low'')]"

text \<open>The two \<open>setReceipts\<close> updaters of \<open>processOne\<close>.\<close>

definition set_success :: "nat \<Rightarrow> 'p parse_data \<Rightarrow> 'p Receipt list \<Rightarrow> 'p Receipt list" where
  "set_success idx data prev =
     map_idx (\<lambda>r i. if i = idx
                then r\<lparr>image_base64 := d_image_base64 data,
                       thumbnail_base64 := d_thumbnail_base64 data,
                       parsed := d_parsed data,
                       processing := False,
                       error := None\<rparr>
                else r) prev"

definition set_placeholder ::
  "nat \<Rightarrow> string option \<Rightarrow> string \<Rightarrow> jsobj Receipt list \<Rightarrow> jsobj Receipt list" where
  "set_placeholder idx lastError now prev =
     map_idx (\<lambda>r i. if i = idx
                then r\<lparr>parsed := Some (emptyParsed now),
                       processing := False,
                       error := Some (''Failed after '' @ string_of_nat MAX_RETRIES @ '' attempts: ''
                                       @ (case lastError of None \<Rightarrow> ''undefined'' | Some m \<Rightarrow> m))\<rparr>
                else r) prev"

text \<open>
  The retry loop of \<open>processOne\<close>, from \<open>attempt\<close> on. \<open>net attempt\<close> is the exchange
  of that attempt; \<open>waited\<close> adds up the \<open>setTimeout\<close> delays in milliseconds. The
  result is the one \<open>setReceipts\<close> updater the call issues, the number of requests it
  sent and the time it slept. Every error thrown in the \<open>try\<close> block is the \<open>Inl\<close>
  of \<open>parse_attempt\<close> and is consumed by the \<open>catch\<close>.
\<close>

function attempt_loop ::
  "(nat \<Rightarrow> jsobj parse_data http_reply) \<Rightarrow> nat \<Rightarrow> string \<Rightarrow> nat \<Rightarrow> string option \<Rightarrow> nat
   \<Rightarrow> (jsobj Receipt list \<Rightarrow> jsobj Receipt list) \<times> nat \<times> nat" where
  "attempt_loop net idx now attempt lastError waited =
     (if attempt \<le> MAX_RETRIES then
        (case parse_attempt (net attempt) of
           Inr data \<Rightarrow> (set_success idx data, attempt, waited)
         | Inl m \<Rightarrow>
             attempt_loop net idx now (Suc attempt) (Some m)
               (if attempt < MAX_RETRIES then waited + 1000 else waited))
      else (set_placeholder idx lastError now, attempt - 1, waited))"
  by pat_completeness auto
termination
  by (relation "measure (\<lambda>(net, idx, now, attempt, lastError, waited). Suc MAX_RETRIES - attempt)")
     auto

declare attempt_loop.simps [simp del]

definition processOne ::
  "(nat \<Rightarrow> jsobj parse_data http_reply) \<Rightarrow> string \<Rightarrow> jsobj Receipt \<Rightarrow> nat
   \<Rightarrow> (jsobj Receipt list \<Rightarrow> jsobj Receipt list) \<times> nat \<times> nat" where
  "processOne net now receipt idx = attempt_loop net idx now 1 None 0"

text \<open>
  \<open>processAllReceipts\<close>. \<open>toProcess\<close> pairs each receipt with its index and keeps
  those without a parsed record and with a file; all of them are marked as processing;
  then every \<open>processOne\<close> runs, and its updater is applied when it completes.
  \<open>net idx\<close> are the exchanges of receipt \<open>idx\<close>, \<open>clock idx\<close> the time at which its
  placeholder is built, and \<open>done_order\<close> the order in which the calls complete: the
  calls run in parallel, so it is any arrangement of \<open>toProcess\<close>.
\<close>

definition toProcess :: "'p Receipt list \<Rightarrow> ('p Receipt \<times> nat) list" where
  "toProcess receipts =
     filter (\<lambda>(receipt, idx). parsed receipt = None \<and> file_obj receipt \<noteq> None)
       (map_idx (\<lambda>r idx. (r, idx)) receipts)"

definition mark_processing :: "('p Receipt \<times> nat) list \<Rightarrow> 'p Receipt list \<Rightarrow> 'p Receipt list" where
  "mark_processing tp prev =
     map_idx (\<lambda>r idx. if list_ex (\<lambda>p. snd p = idx) tp then r\<lparr>processing := True\<rparr> else r) prev"

definition completion_order :: "'p Receipt list \<Rightarrow> ('p Receipt \<times> nat) list \<Rightarrow> bool" where
  "completion_order receipts done_order = (mset done_order = mset (toProcess receipts))"

definition processAllReceipts ::
  "(nat \<Rightarrow> nat \<Rightarrow> jsobj parse_data http_reply) \<Rightarrow> (nat \<Rightarrow> string)
   \<Rightarrow> (jsobj Receipt \<times> nat) list \<Rightarrow> jsobj Receipt list \<Rightarrow> jsobj Receipt list" where
  "processAllReceipts net clock done_order receipts =
     fold (\<lambda>(receipt, idx). fst (processOne (net idx) (clock idx) receipt idx)) done_order
       (mark_processing (toProcess receipts) receipts)"

text \<open>
  The earlier \<open>processAllReceipts\<close> of \<open>page.tsx\<close>: one receipt after the other, one
  attempt each. \<open>rs\<close> is the list the handler closed over, which the skip guard reads;
  \<open>net i\<close> is the exchange for receipt \<open>i\<close>.
\<close>

fun process_attempt :: "'d http_reply \<Rightarrow> string + 'd" where
  "process_attempt (Rejected m) = Inl m"
| "process_attempt (Reply ok status body) =
     (if \<not> ok then Inl ''Failed to process receipt'' else body)"

definition set_processing :: "nat \<Rightarrow> 'p Receipt list \<Rightarrow> 'p Receipt list" where
  "set_processing i prev =
     map_idx (\<lambda>r idx. if idx = i then r\<lparr>processing := True\<rparr> else r) prev"

definition set_failure :: "nat \<Rightarrow> string \<Rightarrow> 'p Receipt list \<Rightarrow> 'p Receipt list" where
  "set_failure i message prev =
     map_idx (\<lambda>r idx. if idx = i then r\<lparr>processing := False, error := Some message\<rparr> else r) prev"

definition process_in_turn ::
  "(nat \<Rightarrow> 'p parse_data http_reply) \<Rightarrow> 'p Receipt list \<Rightarrow> nat \<Rightarrow> 'p Receipt list \<Rightarrow> 'p Receipt list" where
  "process_in_turn net rs i prev =
     (if parsed (rs ! i) \<noteq> None \<or> file_obj (rs ! i) = None then prev
      else (case process_attempt (net i) of
              Inr data \<Rightarrow> set_success i data (set_processing i prev)
            | Inl message \<Rightarrow> set_failure i message (set_processing i prev)))"


text \<open>
  \<open>handleReparse(index, userText, mode)\<close>, given the exchange with \<open>/api/reparse\<close>.
  \<open>receipt.parsed\<close> is read inside the \<open>try\<close> block, so an index outside the list throws
  a TypeError there, before the request, and the \<open>catch\<close> runs.
\<close>

fun reparse_attempt :: "'d http_reply \<Rightarrow> string + 'd" where
  "reparse_attempt (Rejected m) = Inl m"
| "reparse_attempt (Reply ok status body) =
     (if \<not> ok then Inl ''Failed to reparse'' else body)"

text \<open>
  The three parts of \<open>handleReparse\<close>: the updater issued before the request, the
  outcome of the \<open>try\<close> block, and the updater issued when the request has settled.
\<close>

definition reparse_begin :: "nat \<Rightarrow> 'p Receipt list \<Rightarrow> 'p Receipt list" where
  "reparse_begin index prev =
     map_idx (\<lambda>r idx. if idx = index then r\<lparr>processing := True\<rparr> else r) prev"

definition reparse_outcome :: "'p Receipt list \<Rightarrow> nat \<Rightarrow> 'd http_reply \<Rightarrow> string + 'd" where
  "reparse_outcome receipts index reply =
     (if index < length receipts then reparse_attempt reply
      else Inl ''Cannot read properties of undefined (reading 'parsed')'')"

definition reparse_end :: "nat \<Rightarrow> string + 'p option \<Rightarrow> 'p Receipt list \<Rightarrow> 'p Receipt list" where
  "reparse_end index outcome prev =
     (case outcome of
        Inr data_parsed \<Rightarrow>
          map_idx (\<lambda>r idx. if idx = index
                     then r\<lparr>parsed := data_parsed, processing := False, error := None\<rparr>
                     else r) prev
      | Inl message \<Rightarrow>
          map_idx (\<lambda>r idx. if idx = index
                     then r\<lparr>processing := False, error := Some message\<rparr>
                     else r) prev)"

definition handleReparse ::
  "'p Receipt list \<Rightarrow> nat \<Rightarrow> 'p option http_reply \<Rightarrow> 'p Receipt list" where
  "handleReparse receipts index reply =
     reparse_end index (reparse_outcome receipts index reply) (reparse_begin index receipts)"

section \<open>The screens: which action is available when\<close>





text \<open>
  The session of \<open>Home\<close> with the flat review component: the part of its React state
  that the receipt handlers read and write, the input of the review component, and the
  requests that have been sent and have not settled yet. A pending \<open>processOne\<close> holds
  the receipt and the index it was called with, a pending re-parse the index its updater
  will write.
\<close>

datatype AppState = Upload | Review

datatype call = Extraction "jsobj Receipt" nat | Refinement nat

record Home =
  appState :: AppState
  receipts :: "jsobj Receipt list"
  currentIndex :: nat
  processing_all :: bool
  userInput :: string
  pending :: "call list"











section \<open>lib/types: empty records, and the shapes the interfaces declare\<close>

definition createEmptyFields :: TypeSpecificFields where
  "createEmptyFields =
     \<lparr>travel_general =
        [(''date'', JNull), (''mode'', JNull), (''is_return'', JBool False),
         (''from_location'', JNull), (''to_location'', JNull), (''foreign_currency'', JNull),
         (''sterling_total'', JNull), (''is_non_uk_eu'', JBool False)],
      travel_mileage =
        [(''date'', JNull), (''miles'', JNull), (''is_return'', JBool False),
         (''from_location'', JNull), (''to_location'', JNull), (''cost_per_mile'', JNull)],
      hospitality =
        [(''date'', JNull), (''principal_guest'', JNull), (''organisation'', JNull),
         (''total_numbers'', JNull), (''foreign_currency'', JNull), (''sterling_total'', JNull),
         (''non_college_staff'', JBool False)],
      other =
        [(''date'', JNull), (''expense_type'', JNull), (''description'', JNull),
         (''foreign_currency'', JNull), (''sterling_total'', JNull),
         (''is_non_uk_eu'', JBool False)]\<rparr>"

definition createEmptyParsedReceipt :: ParsedReceipt where
  "createEmptyParsedReceipt =
     \<lparr>active_section = Other, confidence = ''low'', raw_description = [],
      fields_rec = createEmptyFields\<rparr>"










section \<open>JSON text\<close>




























section \<open>app/page.tsx: the header in local storage\<close>







section \<open>Generating the documents\<close>

















section \<open>A session used in the examples\<close>

text \<open>
  A receipt still to be extracted, a receipt already extracted (flat record), and the
  hospitality receipt of the specification's example scenario with a journey also filled
  in. \<open>unreachable\<close> is a backend that answers 503 to every request.
\<close>

definition taxi_png :: "jsobj Receipt" where
  "taxi_png =
     \<lparr>receipt_id = ''1-a'', filename = ''taxi.png'', image_base64 = [], thumbnail_base64 = [],
      parsed = None, approved = False, processing = False, error = None,
      file_obj = Some ''taxi.png''\<rparr>"

definition hotel_png :: "jsobj Receipt" where
  "hotel_png =
     \<lparr>receipt_id = ''2-b'', filename = ''hotel.png'', image_base64 = ''aGk='',
      thumbnail_base64 = ''aGk='',
      parsed = Some [(''expense_type'', JStr ''HOTEL / SUBSISTENCE''), (''amount'', JNum 80),
                     (''currency'', JStr ''GBP''), (''date'', JStr ''2025-01-09''),
                     (''vendor'', JStr ''Inn''), (''description'', JStr ''One night''),
                     (''guest_count'', JNull), (''is_group_expense'', JBool False),
                     (''confidence'', JStr ''high''), (''is_non_uk_eu'', JBool False)],
      approved = True, processing = False, error = None, file_obj = Some ''hotel.png''\<rparr>"

definition unreachable :: "nat \<Rightarrow> nat \<Rightarrow> jsobj parse_data http_reply" where
  "unreachable idx attempt = Reply False 503 (Inl ''Unexpected token'')"

definition dinner :: ParsedReceipt where
  "dinner =
     \<lparr>active_section = Hospitality, confidence = ''high'', raw_description = ''Dinner'',
      fields_rec = createEmptyFields
        \<lparr>travel_general :=
           [(''date'', JStr ''2025-01-10''), (''mode'', JStr ''TAXI''), (''is_return'', JBool False),
            (''from_location'', JStr ''Airport''), (''to_location'', JStr ''Hotel''),
            (''foreign_currency'', JNull), (''sterling_total'', JNum 30),
            (''is_non_uk_eu'', JBool False)],
         hospitality :=
           [(''date'', JStr ''2025-01-10''), (''principal_guest'', JStr ''Dr. Smith''),
            (''organisation'', JNull), (''total_numbers'', JNum 4), (''foreign_currency'', JNull),
            (''sterling_total'', JNum 120.5), (''non_college_staff'', JBool False)]\<rparr>\<rparr>"

definition dinner_jpg :: "ParsedReceipt Receipt" where
  "dinner_jpg =
     \<lparr>receipt_id = ''3-c'', filename = ''dinner.jpg'', image_base64 = ''aGk='',
      thumbnail_base64 = ''aGk='', parsed = Some dinner, approved = False, processing = False,
      error = None, file_obj = Some ''dinner.jpg''\<rparr>"







section \<open>Properties of updateField\<close>

lemma get_set_section_same: "get_section (set_section fs s ob) s = ob"
  by (cases s) simp_all

lemma get_set_section_other: "s' \<noteq> s \<Longrightarrow> get_section (set_section fs s ob) s' = get_section fs s'"
  by (cases s; cases s') simp_all

lemma updateField_fields:
  "updateField (Some p) section field val = Some q \<Longrightarrow>
   fields_rec q = set_section (fields_rec p) section
                (AList.update field val (get_section (fields_rec p) section))"
  by (auto simp: updateField_def Let_def split: if_splits)

text \<open>
  C3. Editing a field of a section that is not the active one with a non-empty value
  (not null, not the empty string, not false) makes that section the active one; with an
  empty value, or when the section is already active, the active section stays as it was.
  A receipt with a parsed record always yields a new record.
\<close>

theorem updateField_active_section:
  "\<exists>q. updateField (Some p) section field val = Some q \<and>
       (section \<noteq> active_section p \<and> val \<noteq> JNull \<and> val \<noteq> JStr [] \<and> val \<noteq> JBool False
          \<longrightarrow> active_section q = section) \<and>
       (val = JNull \<or> val = JStr [] \<or> val = JBool False \<or> section = active_section p
          \<longrightarrow> active_section q = active_section p)"
  by (auto simp: updateField_def Let_def)

theorem updateField_active_section_witness:
  "(\<exists>q. updateField (Some createEmptyParsedReceipt) Hospitality ''principal_guest''
              (JStr ''Dr. Smith'') = Some q \<and>
        active_section q = Hospitality) \<and>
   (\<exists>q. updateField (Some createEmptyParsedReceipt) Hospitality ''principal_guest''
              (JStr []) = Some q \<and>
        active_section q = Other)"
proof -
  have a: "active_section createEmptyParsedReceipt = Other"
    by (simp add: createEmptyParsedReceipt_def)
  from updateField_active_section
    [of createEmptyParsedReceipt Hospitality "''principal_guest''" "JStr ''Dr. Smith''"]
  have 1: "\<exists>q. updateField (Some createEmptyParsedReceipt) Hospitality ''principal_guest''
              (JStr ''Dr. Smith'') = Some q \<and> active_section q = Hospitality"
    by (simp add: a)
  from updateField_active_section
    [of createEmptyParsedReceipt Hospitality "''principal_guest''" "JStr []"]
  have 2: "\<exists>q. updateField (Some createEmptyParsedReceipt) Hospitality ''principal_guest''
              (JStr []) = Some q \<and> active_section q = Other"
    by (simp add: a)
  from 1 2 show ?thesis by (rule conjI)
qed

text \<open>
  C4. \<open>updateField(section, field, value)\<close> leaves every other section as it was (the
  whole object, so every field of it), leaves every other field of the edited section as
  it was, present or absent, and stores the value in the edited field; confidence and raw
  description are kept too.
\<close>

theorem updateField_frame:
  "\<exists>q. updateField (Some p) section field val = Some q \<and>
       (\<forall>s'. s' \<noteq> section \<longrightarrow> get_section (fields_rec q) s' = get_section (fields_rec p) s') \<and>
       (\<forall>f'. f' \<noteq> field \<longrightarrow>
          map_of (get_section (fields_rec q) section) f' =
          map_of (get_section (fields_rec p) section) f') \<and>
       map_of (get_section (fields_rec q) section) field = Some val \<and>
       confidence q = confidence p \<and> raw_description q = raw_description p"
proof -
  obtain q where q: "updateField (Some p) section field val = Some q"
    by (cases "updateField (Some p) section field val")
       (auto simp: updateField_def Let_def split: if_splits)
  have f: "fields_rec q = set_section (fields_rec p) section
             (AList.update field val (get_section (fields_rec p) section))"
    using q by (rule updateField_fields)
  have "confidence q = confidence p" "raw_description q = raw_description p"
    using q by (auto simp: updateField_def Let_def split: if_splits)
  then show ?thesis
    using q f by (simp add: get_set_section_same get_set_section_other update_conv')
qed

theorem updateField_frame_witness:
  "\<exists>q. updateField (Some dinner) Other ''description'' (JStr ''Wine'') = Some q \<and>
       get_section (fields_rec q) Hospitality = get_section (fields_rec dinner) Hospitality \<and>
       map_of (get_section (fields_rec q) Other) ''date'' =
         map_of (get_section (fields_rec dinner) Other) ''date'' \<and>
       map_of (get_section (fields_rec q) Other) ''description'' = Some (JStr ''Wine'')"
proof -
  from updateField_frame [of dinner Other "''description''" "JStr ''Wine''"]
  obtain q where q: "updateField (Some dinner) Other ''description'' (JStr ''Wine'') = Some q"
    and s: "\<forall>s'. s' \<noteq> Other \<longrightarrow> get_section (fields_rec q) s' = get_section (fields_rec dinner) s'"
    and f: "\<forall>f'. f' \<noteq> ''description'' \<longrightarrow>
          map_of (get_section (fields_rec q) Other) f' =
          map_of (get_section (fields_rec dinner) Other) f'"
    and v: "map_of (get_section (fields_rec q) Other) ''description'' = Some (JStr ''Wine'')"
    by (elim exE conjE)
  have "get_section (fields_rec q) Hospitality = get_section (fields_rec dinner) Hospitality"
    using s [rule_format, of Hospitality] by simp
  moreover have "map_of (get_section (fields_rec q) Other) ''date'' =
         map_of (get_section (fields_rec dinner) Other) ''date''"
    using f [rule_format, of "''date''"] by simp
  ultimately show ?thesis using q v by (intro exI [of _ q]) simp
qed

section \<open>Properties of the handlers of app/page.tsx\<close>

lemma length_map_idx: "length (map_idx f xs) = length xs"
  by (simp add: map_idx_def)

lemma nth_map_idx: "i < length xs \<Longrightarrow> map_idx f xs ! i = f (xs ! i) i"
  by (simp add: map_idx_def)

lemma handleReparse_length: "length (handleReparse rs i reply) = length rs"
  by (simp add: handleReparse_def reparse_end_def reparse_begin_def length_map_idx split: sum.splits)

lemma set_success_length: "length (set_success idx d prev) = length prev"
  by (simp add: set_success_def length_map_idx)
lemma set_placeholder_length: "length (set_placeholder idx le now prev) = length prev"
  by (simp add: set_placeholder_def length_map_idx)
lemma set_success_other: "j \<noteq> idx \<Longrightarrow> j < length prev \<Longrightarrow> set_success idx d prev ! j = prev ! j"
  by (simp add: set_success_def nth_map_idx)
lemma set_placeholder_other: "j \<noteq> idx \<Longrightarrow> j < length prev \<Longrightarrow> set_placeholder idx le now prev ! j = prev ! j"
  by (simp add: set_placeholder_def nth_map_idx)

lemma attempt_loop_shape:
  "(\<exists>d. fst (attempt_loop net idx now attempt le w) = set_success idx d) \<or>
   (\<exists>le'. fst (attempt_loop net idx now attempt le w) = set_placeholder idx le' now)"
proof (induction net idx now attempt le w rule: attempt_loop.induct)
  case (1 net idx now attempt lastError waited)
  show ?case
  proof (cases "attempt \<le> MAX_RETRIES")
    case False
    then show ?thesis by (subst attempt_loop.simps, subst attempt_loop.simps) auto
  next
    case True
    show ?thesis
    proof (cases "parse_attempt (net attempt)")
      case (Inl m)
      with True 1 show ?thesis
        by (subst attempt_loop.simps, subst (2) attempt_loop.simps) simp
    next
      case (Inr d)
      with True show ?thesis
        by (subst attempt_loop.simps, subst (2) attempt_loop.simps) auto
    qed
  qed
qed

lemma processOne_length: "length (fst (processOne net now r idx) prev) = length prev"
  using attempt_loop_shape [of net idx now 1 None 0]
  by (auto simp: processOne_def set_success_length set_placeholder_length)

lemma processOne_other:
  "j \<noteq> idx \<Longrightarrow> j < length prev \<Longrightarrow> fst (processOne net now r idx) prev ! j = prev ! j"
  using attempt_loop_shape [of net idx now 1 None 0]
  by (auto simp: processOne_def set_success_other set_placeholder_other)

lemma attempt_loop_all_fail:
  assumes "parse_attempt (net 1) = Inl m1" "parse_attempt (net 2) = Inl m2"
    "parse_attempt (net 3) = Inl m3"
  shows "processOne net now r idx = (set_placeholder idx (Some m3) now, 3, 2000)"
proof -
  have s2: "Suc 1 = 2" and s3: "Suc 2 = 3" and s4: "Suc 3 = 4" by simp_all
  have 4: "attempt_loop net idx now 4 (Some m3) 2000 = (set_placeholder idx (Some m3) now, 3, 2000)"
    by (subst attempt_loop.simps) (simp add: MAX_RETRIES_def)
  have 3: "attempt_loop net idx now 3 (Some m2) 2000 = attempt_loop net idx now 4 (Some m3) 2000"
    using assms(3) by (subst attempt_loop.simps) (simp add: MAX_RETRIES_def s4 del: One_nat_def)
  have 2: "attempt_loop net idx now 2 (Some m1) 1000 = attempt_loop net idx now 3 (Some m2) 2000"
    using assms(2) by (subst attempt_loop.simps) (simp add: MAX_RETRIES_def s3 del: One_nat_def)
  have 1: "attempt_loop net idx now 1 None 0 = attempt_loop net idx now 2 (Some m1) 1000"
    using assms(1) by (subst attempt_loop.simps) (simp add: MAX_RETRIES_def s2 del: One_nat_def)
  show ?thesis unfolding processOne_def by (simp only: 1 2 3 4)
qed

lemma fold_length:
  "length (fold (\<lambda>(receipt, idx). fst (processOne (net idx) (clock idx) receipt idx)) xs st) = length st"
  by (induction xs arbitrary: st) (auto simp: processOne_length)

lemma fold_other:
  "j \<notin> snd ` set xs \<Longrightarrow> j < length st \<Longrightarrow>
   fold (\<lambda>(receipt, idx). fst (processOne (net idx) (clock idx) receipt idx)) xs st ! j = st ! j"
proof (induction xs arbitrary: st)
  case Nil
  then show ?case by simp
next
  case (Cons x xs)
  obtain r i where x: "x = (r, i)" by (cases x)
  with Cons.prems have "j \<noteq> i" "j \<notin> snd ` set xs" by auto
  with Cons.IH [of "fst (processOne (net i) (clock i) r i) st"] Cons.prems(2) x
  show ?case by (simp add: processOne_length processOne_other)
qed

lemma set_placeholder_at:
  "idx < length prev \<Longrightarrow> set_placeholder idx le now prev ! idx =
     (prev ! idx)\<lparr>parsed := Some (emptyParsed now), processing := False,
        error := Some (''Failed after '' @ string_of_nat MAX_RETRIES @ '' attempts: ''
                        @ (case le of None \<Rightarrow> ''undefined'' | Some m \<Rightarrow> m))\<rparr>"
  by (simp add: set_placeholder_def nth_map_idx)

lemma fold_at:
  assumes "distinct (map snd xs)" "(r, idx) \<in> set xs" "idx < length st"
    and "\<And>prev. idx < length prev \<Longrightarrow>
           fst (processOne (net idx) (clock idx) r idx) prev ! idx = h (prev ! idx)"
  shows "fold (\<lambda>(receipt, idx). fst (processOne (net idx) (clock idx) receipt idx)) xs st ! idx =
         h (st ! idx)"
  using assms(1-3)
proof (induction xs arbitrary: st)
  case Nil
  then show ?case by simp
next
  case (Cons x xs)
  obtain r' i where x: "x = (r', i)" by (cases x)
  let ?st = "fst (processOne (net i) (clock i) r' i) st"
  have len: "length ?st = length st" by (rule processOne_length)
  show ?case
  proof (cases "x = (r, idx)")
    case True
    with Cons.prems(1) have "idx \<notin> snd ` set xs" by auto
    then have "fold (\<lambda>(receipt, idx). fst (processOne (net idx) (clock idx) receipt idx)) xs ?st ! idx
               = ?st ! idx"
      using Cons.prems(3) len by (intro fold_other) simp_all
    with True x assms(4) [of st] Cons.prems(3) show ?thesis by simp
  next
    case False
    with Cons.prems(2) have mem: "(r, idx) \<in> set xs" by simp
    with Cons.prems(1) x have ne: "idx \<noteq> i" by force
    from Cons.prems(1) have d: "distinct (map snd xs)" by simp
    have "fold (\<lambda>(receipt, idx). fst (processOne (net idx) (clock idx) receipt idx)) xs ?st ! idx
          = h (?st ! idx)"
      using Cons.IH [OF d mem] Cons.prems(3) len by simp
    with x ne Cons.prems(3) show ?thesis by (simp add: processOne_other)
  qed
qed

lemma map_snd_pairs: "map snd (map_idx (\<lambda>r idx. (r, idx)) xs) = [0..<length xs]"
  by (simp add: map_idx_def comp_def)

lemma toProcess_distinct: "distinct (map snd (toProcess rs))"
  unfolding toProcess_def
  by (rule distinct_map_filter) (simp add: map_snd_pairs)

lemma toProcess_mem:
  "(r, i) \<in> set (toProcess rs) \<longleftrightarrow>
   i < length rs \<and> r = rs ! i \<and> parsed r = None \<and> file_obj r \<noteq> None"
  by (auto simp: toProcess_def map_idx_def)

lemma mark_processing_length: "length (mark_processing tp prev) = length prev"
  by (simp add: mark_processing_def length_map_idx)


lemma completion_order_set:
  "completion_order rs done_order \<Longrightarrow> set done_order = set (toProcess rs)"
  unfolding completion_order_def by (rule mset_eq_setD)

lemma completion_order_distinct:
  "completion_order rs done_order \<Longrightarrow> distinct (map snd done_order)"
proof -
  assume "completion_order rs done_order"
  then have "mset (map snd done_order) = mset (map snd (toProcess rs))"
    by (simp add: completion_order_def)
  then show ?thesis
    using toProcess_distinct [of rs] by (metis mset_eq_imp_distinct_iff)
qed

text \<open>
  C6. When the re-parse call for receipt \<open>i\<close> fails (the request is rejected, the
  response is not ok, or its body is not JSON), \<open>handleReparse\<close> ends with receipt
  \<open>i\<close> as it was but for \<open>processing = false\<close> and the error message, so its parsed
  record is the prior one, and with every other receipt as it was.
\<close>

theorem handleReparse_failure:
  assumes "i < length rs" and "reparse_attempt reply = Inl message"
  shows "length (handleReparse rs i reply) = length rs \<and>
         handleReparse rs i reply ! i =
           (rs ! i)\<lparr>processing := False, error := Some message\<rparr> \<and>
         parsed (handleReparse rs i reply ! i) = parsed (rs ! i) \<and>
         error (handleReparse rs i reply ! i) = Some message \<and>
         processing (handleReparse rs i reply ! i) = False \<and>
         (\<forall>j. j < length rs \<and> j \<noteq> i \<longrightarrow> handleReparse rs i reply ! j = rs ! j)"
  using assms by (simp add: handleReparse_def reparse_end_def reparse_outcome_def reparse_begin_def
        length_map_idx nth_map_idx)

theorem handleReparse_failure_witness:
  "(1::nat) < length [taxi_png, hotel_png] \<and>
   reparse_attempt (Reply False 500 (Inl [])) = (Inl ''Failed to reparse'' :: string + jsobj option) \<and>
   handleReparse [taxi_png, hotel_png] 1 (Reply False 500 (Inl [])) =
     [taxi_png, hotel_png\<lparr>error := Some ''Failed to reparse''\<rparr>]"
proof -
  have 1: "(1::nat) < length [taxi_png, hotel_png]" by simp
  have 2: "reparse_attempt (Reply False 500 (Inl [])) = (Inl ''Failed to reparse'' :: string + jsobj option)"
    by simp
  have 3: "(0::nat) < length [taxi_png, hotel_png] \<and> (0::nat) \<noteq> 1" by simp
  from handleReparse_failure [OF 1 2] 3
  have "length (handleReparse [taxi_png, hotel_png] 1 (Reply False 500 (Inl []))) = 2"
    and "handleReparse [taxi_png, hotel_png] 1 (Reply False 500 (Inl [])) ! 1 =
           hotel_png\<lparr>processing := False, error := Some ''Failed to reparse''\<rparr>"
    and "handleReparse [taxi_png, hotel_png] 1 (Reply False 500 (Inl [])) ! 0 = taxi_png"
    by simp_all
  moreover have "hotel_png\<lparr>processing := False\<rparr> = hotel_png" by (simp add: hotel_png_def)
  ultimately have "handleReparse [taxi_png, hotel_png] 1 (Reply False 500 (Inl [])) =
     [taxi_png, hotel_png\<lparr>error := Some ''Failed to reparse''\<rparr>]"
    by (intro nth_equalityI) (auto simp: less_Suc_eq numeral_2_eq_2)
  with 1 2 show ?thesis by simp
qed

text \<open>
  C5, as the code has it. A successful re-parse stores the record the call returned in
  place of the prior one, whole, with \<open>processing = false\<close> and no error; nothing of the
  prior record is merged in. The receipt's other attributes and every other receipt stay
  as they were.
\<close>

theorem handleReparse_success:
  assumes "i < length rs" and "reparse_attempt reply = Inr data"
  shows "length (handleReparse rs i reply) = length rs \<and>
         handleReparse rs i reply ! i =
           (rs ! i)\<lparr>parsed := data, processing := False, error := None\<rparr> \<and>
         (\<forall>j. j < length rs \<and> j \<noteq> i \<longrightarrow> handleReparse rs i reply ! j = rs ! j)"
  using assms by (simp add: handleReparse_def reparse_end_def reparse_outcome_def reparse_begin_def
        length_map_idx nth_map_idx)

theorem handleReparse_success_witness:
  "(0::nat) < length [dinner_jpg, dinner_jpg] \<and>
   reparse_attempt (Reply True 200 (Inr (Some createEmptyParsedReceipt))) =
     (Inr (Some createEmptyParsedReceipt) :: string + ParsedReceipt option) \<and>
   handleReparse [dinner_jpg, dinner_jpg] 0 (Reply True 200 (Inr (Some createEmptyParsedReceipt))) ! 0 =
     dinner_jpg\<lparr>parsed := Some createEmptyParsedReceipt, processing := False, error := None\<rparr> \<and>
   handleReparse [dinner_jpg, dinner_jpg] 0 (Reply True 200 (Inr (Some createEmptyParsedReceipt))) ! 1 =
     dinner_jpg"
proof -
  have 1: "(0::nat) < length [dinner_jpg, dinner_jpg]" by simp
  have 2: "reparse_attempt (Reply True 200 (Inr (Some createEmptyParsedReceipt))) =
     (Inr (Some createEmptyParsedReceipt) :: string + ParsedReceipt option)" by simp
  have 3: "(1::nat) < length [dinner_jpg, dinner_jpg] \<and> (1::nat) \<noteq> 0" by simp
  from handleReparse_success [OF 1 2] 1 2 3 show ?thesis by simp
qed

text \<open>
  The prior record has a guest in the hospitality section and a destination in the
  travel section; the call returns an empty record, and both values are gone.
\<close>

theorem handleReparse_replaces_counterexample:
  "parsed (handleReparse [dinner_jpg] 0 (Reply True 200 (Inr (Some createEmptyParsedReceipt))) ! 0)
     = Some createEmptyParsedReceipt \<and>
   map_of (hospitality (fields_rec dinner)) ''principal_guest'' = Some (JStr ''Dr. Smith'') \<and>
   map_of (hospitality (fields_rec createEmptyParsedReceipt)) ''principal_guest'' = Some JNull \<and>
   map_of (travel_general (fields_rec dinner)) ''to_location'' = Some (JStr ''Hotel'') \<and>
   map_of (travel_general (fields_rec createEmptyParsedReceipt)) ''to_location'' = Some JNull"
  by (simp add: handleReparse_def reparse_end_def reparse_outcome_def reparse_begin_def
        map_idx_def dinner_jpg_def dinner_def
        createEmptyParsedReceipt_def createEmptyFields_def)


lemma process_in_turn_length: "length (process_in_turn net rs i prev) = length prev"
  by (simp add: process_in_turn_def set_success_def set_failure_def set_processing_def
        length_map_idx split: sum.splits)


lemma fold_in_turn_length: "length (fold (process_in_turn net rs) is st) = length st"
  by (induction "is" arbitrary: st) (simp_all add: process_in_turn_length)




text \<open>
  C1. A receipt submitted by \<open>processAllReceipts\<close> whose three attempts all throw:
  \<open>processOne\<close> sends three requests and sleeps two times 1000 ms, and the run ends
  with the placeholder record (confidence \<open>low\<close>) as the receipt's parsed record, the
  message \<open>Failed after 3 attempts: ...\<close> as its error and \<open>processing = false\<close>.
  The run itself returns a list of the same length: no error leaves the retry loop.
\<close>

theorem processAllReceipts_retry_exhausted:
  assumes "completion_order rs done_order"
    and "i < length rs" and "parsed (rs ! i) = None" and "file_obj (rs ! i) \<noteq> None"
    and "parse_attempt (net i 1) = Inl m1" and "parse_attempt (net i 2) = Inl m2"
    and "parse_attempt (net i 3) = Inl m3"
  shows "length (processAllReceipts net clock done_order rs) = length rs \<and>
         snd (processOne (net i) (clock i) (rs ! i) i) = (3, 2000) \<and>
         parsed (processAllReceipts net clock done_order rs ! i) = Some (emptyParsed (clock i)) \<and>
         map_of (emptyParsed (clock i)) ''confidence'' = Some (JStr ''low'') \<and>
         error (processAllReceipts net clock done_order rs ! i) =
           Some (''Failed after 3 attempts: '' @ m3) \<and>
         error (processAllReceipts net clock done_order rs ! i) \<noteq> Some [] \<and>
         processing (processAllReceipts net clock done_order rs ! i) = False"
proof -
  let ?r = "rs ! i"
  let ?h = "\<lambda>x::jsobj Receipt. x\<lparr>parsed := Some (emptyParsed (clock i)), processing := False,
        error := Some (''Failed after '' @ string_of_nat MAX_RETRIES @ '' attempts: '' @ m3)\<rparr>"
  have one: "processOne (net i) (clock i) ?r i = (set_placeholder i (Some m3) (clock i), 3, 2000)"
    using assms(5-7) by (rule attempt_loop_all_fail)
  have mem: "(?r, i) \<in> set done_order"
    using assms(1-4) by (simp add: completion_order_set toProcess_mem)
  have d: "distinct (map snd done_order)"
    using assms(1) by (rule completion_order_distinct)
  have h: "fst (processOne (net i) (clock i) ?r i) prev ! i = ?h (prev ! i)"
    if "i < length prev" for prev
    using that by (simp add: one set_placeholder_at)
  have at: "processAllReceipts net clock done_order rs ! i =
            ?h (mark_processing (toProcess rs) rs ! i)"
    unfolding processAllReceipts_def
    using d mem _ h by (rule fold_at) (simp add: mark_processing_length assms(2))
  have three: "string_of_nat MAX_RETRIES = ''3''"
    by (simp add: MAX_RETRIES_def string_of_nat.simps digit_char_def)
  have len: "length (processAllReceipts net clock done_order rs) = length rs"
    by (simp add: processAllReceipts_def fold_length mark_processing_length)
  show ?thesis
    using len by (simp add: at one three emptyParsed_def)
qed

theorem processAllReceipts_retry_exhausted_witness:
  "completion_order [taxi_png, hotel_png] [(taxi_png, 0)] \<and>
   parsed (processAllReceipts unreachable (\<lambda>i. ''2025-01-10T09:30:00.000Z'') [(taxi_png, 0)]
     [taxi_png, hotel_png] ! 0) = Some (emptyParsed ''2025-01-10T09:30:00.000Z'') \<and>
   error (processAllReceipts unreachable (\<lambda>i. ''2025-01-10T09:30:00.000Z'') [(taxi_png, 0)]
     [taxi_png, hotel_png] ! 0) = Some ''Failed after 3 attempts: HTTP 503''"
proof -
  have 1: "completion_order [taxi_png, hotel_png] [(taxi_png, 0)]"
    by (simp add: completion_order_def toProcess_def map_idx_def taxi_png_def hotel_png_def)
  have 2: "(0::nat) < length [taxi_png, hotel_png]" by simp
  have 3: "parsed ([taxi_png, hotel_png] ! 0) = None" by (simp add: taxi_png_def)
  have 4: "file_obj ([taxi_png, hotel_png] ! 0) \<noteq> None" by (simp add: taxi_png_def)
  have 503: "string_of_nat 503 = ''503''"
    by (simp add: string_of_nat.simps [of 503] string_of_nat.simps [of 50]
          string_of_nat.simps [of 5] digit_char_def)
  have 5: "parse_attempt (unreachable 0 k) = Inl ''HTTP 503''" for k
    by (simp add: unreachable_def 503)
  from processAllReceipts_retry_exhausted
    [where net = unreachable and clock = "\<lambda>i. ''2025-01-10T09:30:00.000Z''"
       and rs = "[taxi_png, hotel_png]" and done_order = "[(taxi_png, 0)]" and i = 0,
     OF 1 2 3 4 5 5 5] 1
  show ?thesis by simp
qed

section \<open>Defaulted records\<close>



section \<open>Re-parse and the processing flag\<close>







section \<open>The header survives a reload\<close>












section \<open>Two generations of the same claim\<close>



end
